theory Spec2Isabelle
  imports Complex_Main "HOL-Library.Product_Lexorder" "HOL-Library.Multiset"
begin

section \<open>Academic-Recommender: the pipeline of main.py\<close>

text \<open>
  The script extracts topic and location phrases from a query, resolves topics to
  OpenAlex concepts, fetches the authors of the first concepts per country and prints
  the best ranked ones. Everything outside the script is a parameter of the model:
  \<^item> the question-answering model, \<open>nltk.sent_tokenize\<close>, \<open>nltk.word_tokenize\<close> and the
    English stop-word list of NLTK;
  \<^item> the two OpenAlex endpoints, as functions from the request URL to the \<open>results\<close>
    list of the response;
  \<^item> the country table of pycountry, as a lookup by name.

  Numbers: JSON integers are \<open>int\<close> (Python's integers are unbounded). A Python float is
  represented by the real number it denotes; NaN is excluded. The one float the script
  computes itself, \<open>cited_by_count / works_count\<close>, is the exact quotient rounded to a
  double: the rounding is the parameter \<open>fl\<close>, applied to the quotients within the range of
  a double; beyond it the division raises OverflowError.

  The fields of a response have the types the API documents; a response of another
  shape, and a failure of the network, are not modelled.

  The signature of \<open>get_authors\<close> is read as
  \<open>get_authors(concepts, country_code)\<close>; the model follows the function bodies.
\<close>

subsection \<open>Data\<close>

datatype py_error = ZeroDivisionError | OverflowError

text \<open>A key of a JSON object that may be missing, or present with the value \<open>null\<close>.\<close>

datatype 'a json_field = Absent | Null | Value 'a

text \<open>\<open>d.get(key, None)\<close>: a missing key and a \<open>null\<close> both give \<open>None\<close>.\<close>

fun dict_get :: "'a json_field \<Rightarrow> 'a option" where
  "dict_get Absent = None"
| "dict_get Null = None"
| "dict_get (Value v) = Some v"

record institution =
  inst_display_name :: string

text \<open>
  An author object of the API response, with the keys \<open>get_authors\<close> reads;
  \<open>api_2yr_mean_citedness\<close> is \<open>a['summary_stats']['2yr_mean_citedness']\<close>.
\<close>

record api_author =
  api_display_name :: string
  api_cited_by_count :: int
  api_works_count :: int
  api_2yr_mean_citedness :: real
  api_last_known_institution :: "institution json_field"

text \<open>
  The dictionary \<open>get_authors\<close> builds; \<open>two_year_mean_citedness\<close> is its key
  \<open>'2yr_mean_citedness'\<close>.
\<close>

record author =
  display_name :: string
  cited_by_count :: int
  works_count :: int
  citing_score :: real
  two_year_mean_citedness :: real
  association :: string

text \<open>
  The five keys \<open>get_concepts\<close> keeps of a concept object; a raw result of the API is
  any extension of this record.
\<close>

record concept =
  concept_id :: string
  concept_display_name :: string
  concept_relevance_score :: real
  concept_description :: "string option"
  concept_cited_by_count :: int

subsection \<open>get\_authors\<close>

text \<open>
  Python's \<open>a / b\<close> on integers is the quotient rounded to the nearest double. It raises
  ZeroDivisionError when \<open>b\<close> is zero, and OverflowError when the quotient rounds beyond the
  largest double, \<open>2 ^ 1024 - 2 ^ 971\<close>: that is when its magnitude is \<open>2 ^ 1024 - 2 ^ 970\<close>
  or more.
\<close>

definition float_overflow :: int where
  "float_overflow = 2 ^ 1024 - 2 ^ 970"

text \<open>For \<open>b\<close> not zero: the magnitude of \<open>a / b\<close> is below \<open>float_overflow\<close>.\<close>

definition in_double_range :: "int \<Rightarrow> int \<Rightarrow> bool" where
  "in_double_range a b \<longleftrightarrow> \<bar>a\<bar> < float_overflow * \<bar>b\<bar>"

definition truediv :: "(real \<Rightarrow> real) \<Rightarrow> int \<Rightarrow> int \<Rightarrow> py_error + real" where
  "truediv fl a b =
     (if b = 0 then Inl ZeroDivisionError
      else if \<not> in_double_range a b then Inl OverflowError
      else Inr (fl (of_int a / of_int b)))"

text \<open>The filter expression and the request URL (lines 136 to 141).\<close>

definition authors_filter :: "'a concept_scheme \<Rightarrow> string option \<Rightarrow> string" where
  "authors_filter c country_code =
     (let filter0 = ''filter=concept.id:'' @ concept_id c
      in case country_code of
           None \<Rightarrow> filter0
         | Some cc \<Rightarrow> filter0 @ '',last_known_institution.country_code:'' @ cc)"

definition authors_url :: "'a concept_scheme \<Rightarrow> string option \<Rightarrow> string" where
  "authors_url c country_code =
     ''https://api.openalex.org/authors?'' @ authors_filter c country_code
       @ ''&per-page=100&sort=cited_by_count:desc''"

text \<open>The body of the inner loop (lines 143 to 153): one author dictionary, or the fault
  of the division.\<close>

definition build_author :: "(real \<Rightarrow> real) \<Rightarrow> api_author \<Rightarrow> py_error + author" where
  "build_author fl a =
     (case truediv fl (api_cited_by_count a) (api_works_count a) of
        Inl e \<Rightarrow> Inl e
      | Inr q \<Rightarrow>
          Inr \<lparr> display_name = api_display_name a,
                cited_by_count = api_cited_by_count a,
                works_count = api_works_count a,
                citing_score = q,
                two_year_mean_citedness = api_2yr_mean_citedness a,
                association =
                  (case dict_get (api_last_known_institution a) of
                     Some lki \<Rightarrow> inst_display_name lki
                   | None \<Rightarrow> ''No institution'') \<rparr>)"

text \<open>The inner loop: \<open>for a in authors: ...; all_authors.append(author)\<close>.\<close>

fun authors_loop :: "(real \<Rightarrow> real) \<Rightarrow> api_author list \<Rightarrow> author list \<Rightarrow> py_error + author list" where
  "authors_loop fl [] all_authors = Inr all_authors"
| "authors_loop fl (a # as) all_authors =
     (case build_author fl a of
        Inl e \<Rightarrow> Inl e
      | Inr author \<Rightarrow> authors_loop fl as (all_authors @ [author]))"

text \<open>The outer loop: \<open>for concept in concepts\<close>, one request per concept.\<close>

fun concepts_loop ::
  "(real \<Rightarrow> real) \<Rightarrow> (string \<Rightarrow> api_author list) \<Rightarrow> 'a concept_scheme list \<Rightarrow> string option
     \<Rightarrow> author list \<Rightarrow> py_error + author list" where
  "concepts_loop fl api [] country_code all_authors = Inr all_authors"
| "concepts_loop fl api (c # cs) country_code all_authors =
     (case authors_loop fl (api (authors_url c country_code)) all_authors of
        Inl e \<Rightarrow> Inl e
      | Inr all_authors' \<Rightarrow> concepts_loop fl api cs country_code all_authors')"

text \<open>The sort key \<open>(-1 * x["2yr_mean_citedness"], -1 * x["cited_by_count"])\<close>; pairs are
  compared lexicographically, as Python compares tuples.\<close>

definition rank_key :: "author \<Rightarrow> real \<times> int" where
  "rank_key x = (-1 * two_year_mean_citedness x, -1 * cited_by_count x)"

text \<open>\<open>sorted\<close> is stable, and so is \<open>sort_key\<close>.\<close>

definition get_authors ::
  "(real \<Rightarrow> real) \<Rightarrow> (string \<Rightarrow> api_author list) \<Rightarrow> 'a concept_scheme list \<Rightarrow> string option
     \<Rightarrow> py_error + author list" where
  "get_authors fl api concepts country_code =
     (case concepts_loop fl api concepts country_code [] of
        Inl e \<Rightarrow> Inl e
      | Inr all_authors \<Rightarrow> Inr (sort_key rank_key all_authors))"

text \<open>The author objects fetched for a list of concepts, in request order.\<close>

definition fetched :: "(string \<Rightarrow> api_author list) \<Rightarrow> 'a concept_scheme list \<Rightarrow> string option
     \<Rightarrow> api_author list" where
  "fetched api concepts country_code = concat (map (\<lambda>c. api (authors_url c country_code)) concepts)"

text \<open>The fault of the division on the first author object of a list on which it faults.\<close>

fun first_fault :: "api_author list \<Rightarrow> py_error option" where
  "first_fault [] = None"
| "first_fault (a # as) =
     (if api_works_count a = 0 then Some ZeroDivisionError
      else if \<not> in_double_range (api_cited_by_count a) (api_works_count a) then Some OverflowError
      else first_fault as)"

text \<open>The record derived from an author object on which the division does not fault.\<close>

definition derived :: "(real \<Rightarrow> real) \<Rightarrow> api_author \<Rightarrow> author" where
  "derived fl a =
     \<lparr> display_name = api_display_name a,
       cited_by_count = api_cited_by_count a,
       works_count = api_works_count a,
       citing_score = fl (of_int (api_cited_by_count a) / of_int (api_works_count a)),
       two_year_mean_citedness = api_2yr_mean_citedness a,
       association =
         (case api_last_known_institution a of
            Value lki \<Rightarrow> inst_display_name lki
          | _ \<Rightarrow> ''No institution'') \<rparr>"

subsection \<open>remove\_stop\_words\<close>

text \<open>
  \<open>str.lower\<close> on the ASCII letters; every other character is left as it is (the
  English stop-word list is ASCII).
\<close>

definition lower_char :: "char \<Rightarrow> char" where
  "lower_char c =
     (case map_of (zip ''ABCDEFGHIJKLMNOPQRSTUVWXYZ'' ''abcdefghijklmnopqrstuvwxyz'') c of
        Some l \<Rightarrow> l
      | None \<Rightarrow> c)"

definition lower :: "string \<Rightarrow> string" where
  "lower w = map lower_char w"

text \<open>\<open>sep.join(words)\<close>.\<close>

fun join :: "string \<Rightarrow> string list \<Rightarrow> string" where
  "join sep [] = []"
| "join sep [w] = w"
| "join sep (w # v # ws) = w @ sep @ join sep (v # ws)"

text \<open>Lines 79 and 80: the stop words of NLTK's English list, and three punctuation marks.\<close>

definition stop_words :: "string list \<Rightarrow> string set" where
  "stop_words english = set english \<union> {''.'', '','', '';''}"

text \<open>The loop over the tokens of one topic (lines 87 to 93), on the pair
  \<open>(all_topics, current_topic)\<close>.\<close>

fun words_loop ::
  "string set \<Rightarrow> string list \<Rightarrow> string list list \<times> string list \<Rightarrow> string list list \<times> string list"
where
  "words_loop sw [] (all_topics, current_topic) = (all_topics, current_topic)"
| "words_loop sw (word # ws) (all_topics, current_topic) =
     (if lower word \<notin> sw then words_loop sw ws (all_topics, current_topic @ [word])
      else if length current_topic > 0 then words_loop sw ws (all_topics @ [current_topic], [])
      else words_loop sw ws (all_topics, current_topic))"

text \<open>Lines 95 and 96, after the tokens of a topic: the open run, if any, is appended.\<close>

definition flush :: "string list list \<times> string list \<Rightarrow> string list list" where
  "flush p =
     (case p of (all_topics, current_topic) \<Rightarrow>
        if length current_topic > 0 then all_topics @ [current_topic] else all_topics)"

text \<open>The loop over the topics (lines 83 to 96).\<close>

fun topics_loop ::
  "string set \<Rightarrow> (string \<Rightarrow> string list) \<Rightarrow> string list \<Rightarrow> string list list \<Rightarrow> string list list"
where
  "topics_loop sw word_tokenize [] all_topics = all_topics"
| "topics_loop sw word_tokenize (topic # ts) all_topics =
     topics_loop sw word_tokenize ts (flush (words_loop sw (word_tokenize topic) (all_topics, [])))"

definition remove_stop_words ::
  "string list \<Rightarrow> (string \<Rightarrow> string list) \<Rightarrow> string list \<Rightarrow> string list" where
  "remove_stop_words english word_tokenize topics =
     map (join '' '') (topics_loop (stop_words english) word_tokenize topics [])"

text \<open>
  The specification of the loop, in the words of the design: a stop token is skipped, and
  a token that is not a stop token opens a run that takes every following token up to
  the next stop token.
\<close>

function token_runs :: "('a \<Rightarrow> bool) \<Rightarrow> 'a list \<Rightarrow> 'a list list" where
  "token_runs stop [] = []"
| "token_runs stop (t # ts) =
     (if stop t then token_runs stop ts
      else (t # takeWhile (\<lambda>u. \<not> stop u) ts) # token_runs stop (dropWhile (\<lambda>u. \<not> stop u) ts))"
  by pat_completeness auto
termination
  by (relation "measure (\<lambda>(stop, ts). length ts)") (auto simp: less_Suc_eq_le length_dropWhile_le)

subsection \<open>anwser\_question and extract\_information\<close>

text \<open>The dictionary the question-answering pipeline returns, with the keys read here.\<close>

record answer =
  ans_answer :: string
  ans_score :: real

text \<open>
  Line 51: the texts of the answers whose score is above the threshold. The literal
  \<open>0.15\<close> of the script is the double next below the real 0.15, and the double next
  above it is greater than the real 0.15: a score that is a double compares with the one
  as with the other.
\<close>

definition confident_infos :: "'a answer_scheme list \<Rightarrow> string list" where
  "confident_infos answers = [ans_answer answer. answer \<leftarrow> answers, ans_score answer > 0.15]"

definition anwser_question ::
  "(string \<Rightarrow> string \<Rightarrow> 'a answer_scheme) \<Rightarrow> (string \<Rightarrow> string list) \<Rightarrow> string list
     \<Rightarrow> (string \<Rightarrow> string list) \<Rightarrow> string \<Rightarrow> string \<Rightarrow> string list" where
  "anwser_question qa_model sent_tokenize english word_tokenize context question =
     (let split_context = sent_tokenize context;
          answers = map (\<lambda>c. qa_model question c) split_context;
          infos = confident_infos answers;
          filtered_infos = remove_stop_words english word_tokenize infos
      in filtered_infos)"

definition extract_information ::
  "(string \<Rightarrow> string \<Rightarrow> 'a answer_scheme) \<Rightarrow> (string \<Rightarrow> string list) \<Rightarrow> string list
     \<Rightarrow> (string \<Rightarrow> string list) \<Rightarrow> string \<Rightarrow> string list \<times> string list" where
  "extract_information qa_model sent_tokenize english word_tokenize context =
     (let topics = anwser_question qa_model sent_tokenize english word_tokenize context
                     ''What am I interested in?'';
          locations = anwser_question qa_model sent_tokenize english word_tokenize context
                     ''Which country am I interested in?''
      in (topics, locations))"

subsection \<open>convert\_location\_to\_alpha2\<close>

text \<open>A country of pycountry; \<open>countries_get\<close> below is \<open>pycountry.countries.get(name = ...)\<close>.\<close>

record country =
  alpha_2 :: string
  country_name :: string

definition convert_location_to_alpha2 ::
  "(string \<Rightarrow> 'a country_scheme option) \<Rightarrow> string list \<Rightarrow> string option list" where
  "convert_location_to_alpha2 countries_get countries =
     (let codes = [countries_get country. country \<leftarrow> countries];
          filtered_codes = [alpha_2 (the code). code \<leftarrow> codes, code \<noteq> None]
      in if length filtered_codes > 0 then map Some filtered_codes else [None])"

subsection \<open>get\_concepts and the driver\<close>

text \<open>What the run does that can be observed: the lines it prints and the calls of
  \<open>get_authors\<close> and \<open>print_authors\<close>, in order. A call of \<open>print_authors\<close> stands for
  the lines it prints from its two arguments.\<close>

datatype event =
    Print_inferred_topics string
  | Print_inferred_locations string
  | Print_number_of_concepts nat
  | Print_results_for string
  | Call_get_authors "concept list" "string option"
  | Call_print_authors "author list" "string option"
  | Print_blank_lines
  | Print_no_topics_found

definition get_concepts ::
  "(string \<Rightarrow> 'a concept_scheme list) \<Rightarrow> string \<Rightarrow> event list \<times> concept list" where
  "get_concepts concepts_api topic =
     (let results = concepts_api (''https://api.openalex.org/concepts?search='' @ topic)
      in ([Print_number_of_concepts (length results)], map concept.truncate results))"

text \<open>The loop over the country codes (lines 206 to 211). A fault of \<open>get_authors\<close> is not
  caught: it ends the run, after the events so far.\<close>

fun codes_loop ::
  "(real \<Rightarrow> real) \<Rightarrow> (string \<Rightarrow> api_author list) \<Rightarrow> concept list \<Rightarrow> string option list
     \<Rightarrow> event list \<times> py_error option" where
  "codes_loop fl api concepts [] = ([], None)"
| "codes_loop fl api concepts (country_code # rest) =
     (case get_authors fl api (take 5 concepts) country_code of
        Inl e \<Rightarrow> ([Call_get_authors (take 5 concepts) country_code], Some e)
      | Inr authors \<Rightarrow>
          (case codes_loop fl api concepts rest of
             (events, fault) \<Rightarrow>
               (Call_get_authors (take 5 concepts) country_code
                  # Call_print_authors (take 5 authors) country_code
                  # Print_blank_lines # events, fault)))"

text \<open>The loop over the topics (lines 197 to 211).\<close>

fun driver_loop ::
  "(real \<Rightarrow> real) \<Rightarrow> (string \<Rightarrow> 'a concept_scheme list) \<Rightarrow> (string \<Rightarrow> api_author list)
     \<Rightarrow> (string \<Rightarrow> 'b country_scheme option) \<Rightarrow> string list \<Rightarrow> string list
     \<Rightarrow> event list \<times> py_error option" where
  "driver_loop fl concepts_api api countries_get [] locations = ([], None)"
| "driver_loop fl concepts_api api countries_get (topic # rest) locations =
     (case get_concepts concepts_api topic of
        (printed, concepts) \<Rightarrow>
          (let country_codes = convert_location_to_alpha2 countries_get locations
           in case codes_loop fl api concepts country_codes of
                (events, Some e) \<Rightarrow> (printed @ [Print_results_for topic] @ events, Some e)
              | (events, None) \<Rightarrow>
                  (case driver_loop fl concepts_api api countries_get rest locations of
                     (events', fault) \<Rightarrow>
                       (printed @ [Print_results_for topic] @ events @ events', fault))))"

text \<open>Lines 191 to 213, from the extracted topics and locations on.\<close>

definition driver ::
  "(real \<Rightarrow> real) \<Rightarrow> (string \<Rightarrow> 'a concept_scheme list) \<Rightarrow> (string \<Rightarrow> api_author list)
     \<Rightarrow> (string \<Rightarrow> 'b country_scheme option) \<Rightarrow> string list \<Rightarrow> string list
     \<Rightarrow> event list \<times> py_error option" where
  "driver fl concepts_api api countries_get topics locations =
     (case (if length topics \<noteq> 0
            then driver_loop fl concepts_api api countries_get topics locations
            else ([Print_no_topics_found], None)) of
        (events, fault) \<Rightarrow>
          (Print_inferred_topics (join '', '' topics)
             # Print_inferred_locations (join '', '' locations) # events, fault))"

subsection \<open>Sample inputs\<close>

text \<open>Small responses of the services, on which the properties below are run.\<close>

definition sample_concept :: "string \<Rightarrow> concept" where
  "sample_concept i =
     \<lparr> concept_id = i, concept_display_name = ''Botany'', concept_relevance_score = 1,
       concept_description = None, concept_cited_by_count = 0 \<rparr>"

definition sample_authors_api :: "string \<Rightarrow> api_author list" where
  "sample_authors_api url =
     (if url = ''https://api.openalex.org/authors?filter=concept.id:C1,last_known_institution.country_code:DE&per-page=100&sort=cited_by_count:desc''
      then [\<lparr> api_display_name = ''Ada'', api_cited_by_count = 90, api_works_count = 30,
               api_2yr_mean_citedness = 5 / 2,
               api_last_known_institution = Value \<lparr> inst_display_name = ''TU'' \<rparr> \<rparr>,
            \<lparr> api_display_name = ''Bob'', api_cited_by_count = 40, api_works_count = 8,
               api_2yr_mean_citedness = 4, api_last_known_institution = Null \<rparr>]
      else if url = ''https://api.openalex.org/authors?filter=concept.id:C2,last_known_institution.country_code:DE&per-page=100&sort=cited_by_count:desc''
      then [\<lparr> api_display_name = ''Cy'', api_cited_by_count = 95, api_works_count = 5,
               api_2yr_mean_citedness = 5 / 2, api_last_known_institution = Absent \<rparr>]
      else [\<lparr> api_display_name = ''Dan'', api_cited_by_count = 10, api_works_count = 4,
               api_2yr_mean_citedness = 1, api_last_known_institution = Absent \<rparr>])"

definition sample_zero_api :: "string \<Rightarrow> api_author list" where
  "sample_zero_api url =
     [\<lparr> api_display_name = ''Eve'', api_cited_by_count = 7, api_works_count = 2,
         api_2yr_mean_citedness = 1, api_last_known_institution = Absent \<rparr>,
      \<lparr> api_display_name = ''Zed'', api_cited_by_count = 0, api_works_count = 0,
         api_2yr_mean_citedness = 0, api_last_known_institution = Absent \<rparr>]"

definition sample_huge_api :: "string \<Rightarrow> api_author list" where
  "sample_huge_api url =
     [\<lparr> api_display_name = ''Hal'', api_cited_by_count = 10 ^ 400, api_works_count = 1,
         api_2yr_mean_citedness = 1, api_last_known_institution = Absent \<rparr>]"

definition bob :: author where
  "bob = \<lparr> display_name = ''Bob'', cited_by_count = 40, works_count = 8, citing_score = 5,
           two_year_mean_citedness = 4, association = ''No institution'' \<rparr>"

definition cy :: author where
  "cy = \<lparr> display_name = ''Cy'', cited_by_count = 95, works_count = 5, citing_score = 19,
          two_year_mean_citedness = 5 / 2, association = ''No institution'' \<rparr>"

definition ada :: author where
  "ada = \<lparr> display_name = ''Ada'', cited_by_count = 90, works_count = 30, citing_score = 3,
           two_year_mean_citedness = 5 / 2, association = ''TU'' \<rparr>"

definition dan :: author where
  "dan = \<lparr> display_name = ''Dan'', cited_by_count = 10, works_count = 4, citing_score = 5 / 2,
           two_year_mean_citedness = 1, association = ''No institution'' \<rparr>"

text \<open>A tokenizer that splits at spaces, and a few entries of the English stop-word list.\<close>

fun split_spaces :: "string \<Rightarrow> string \<Rightarrow> string list" where
  "split_spaces cur [] = (if cur = [] then [] else [cur])"
| "split_spaces cur (c # cs) =
     (if c = CHR '' '' then (if cur = [] then [] else [cur]) @ split_spaces [] cs
      else split_spaces (cur @ [c]) cs)"

definition sample_tokenize :: "string \<Rightarrow> string list" where
  "sample_tokenize s = split_spaces [] s"

definition sample_english :: "string list" where
  "sample_english = [''i'', ''the'', ''in'', ''and'', ''a'', ''of'']"

text \<open>Three rows of the country table.\<close>

definition sample_countries_get :: "string \<Rightarrow> country option" where
  "sample_countries_get name =
     map_of [(''Germany'', \<lparr> alpha_2 = ''DE'', country_name = ''Germany'' \<rparr>),
             (''Italy'', \<lparr> alpha_2 = ''IT'', country_name = ''Italy'' \<rparr>),
             (''France'', \<lparr> alpha_2 = ''FR'', country_name = ''France'' \<rparr>)] name"

text \<open>A sentence splitter and two question-answering models; the second answers the
  second sentence differently, below the threshold.\<close>

definition sample_sent_tokenize :: "string \<Rightarrow> string list" where
  "sample_sent_tokenize context = [''I like botany'', ''See the moon'']"

definition sample_qa_model :: "string \<Rightarrow> string \<Rightarrow> answer" where
  "sample_qa_model question c =
     (if c = ''I like botany'' then \<lparr> ans_answer = ''botany'', ans_score = 0.9 \<rparr>
      else \<lparr> ans_answer = ''the moon'', ans_score = 0.15 \<rparr>)"

definition sample_qa_model' :: "string \<Rightarrow> string \<Rightarrow> answer" where
  "sample_qa_model' question c =
     (if c = ''I like botany'' then \<lparr> ans_answer = ''botany'', ans_score = 0.5 \<rparr>
      else \<lparr> ans_answer = ''a star'', ans_score = 0.1 \<rparr>)"

text \<open>A concept search that finds six concepts for every topic.\<close>

definition sample_concepts_api :: "string \<Rightarrow> concept list" where
  "sample_concepts_api url =
     map sample_concept [''C1'', ''C2'', ''C3'', ''C4'', ''C5'', ''C6'']"

section \<open>Properties\<close>

subsection \<open>The loops of get\_authors\<close>

lemma build_author_ok:
  "api_works_count a \<noteq> 0 \<Longrightarrow> in_double_range (api_cited_by_count a) (api_works_count a) \<Longrightarrow>
     build_author fl a = Inr (derived fl a)"
  by (cases "api_last_known_institution a") (simp_all add: build_author_def truediv_def derived_def)

lemma build_author_zero:
  "api_works_count a = 0 \<Longrightarrow> build_author fl a = Inl ZeroDivisionError"
  by (simp add: build_author_def truediv_def)

lemma build_author_overflow:
  "api_works_count a \<noteq> 0 \<Longrightarrow> \<not> in_double_range (api_cited_by_count a) (api_works_count a) \<Longrightarrow>
     build_author fl a = Inl OverflowError"
  by (simp add: build_author_def truediv_def)

lemma first_fault_append:
  "first_fault (xs @ ys) = (case first_fault xs of Some e \<Rightarrow> Some e | None \<Rightarrow> first_fault ys)"
  by (induction xs) simp_all

lemma first_fault_None:
  "first_fault as = None \<longleftrightarrow>
     (\<forall>a\<in>set as. api_works_count a \<noteq> 0 \<and>
        in_double_range (api_cited_by_count a) (api_works_count a))"
  by (induction as) simp_all

lemma first_fault_zero:
  "\<exists>a\<in>set as. api_works_count a = 0 \<Longrightarrow>
   \<forall>a\<in>set as. api_works_count a \<noteq> 0 \<longrightarrow>
      in_double_range (api_cited_by_count a) (api_works_count a) \<Longrightarrow>
   first_fault as = Some ZeroDivisionError"
  by (induction as) auto

lemma authors_loop_first_fault:
  "authors_loop fl as acc =
     (case first_fault as of Some e \<Rightarrow> Inl e | None \<Rightarrow> Inr (acc @ map (derived fl) as))"
  by (induction as arbitrary: acc)
     (simp_all add: build_author_ok build_author_zero build_author_overflow split: option.splits)

lemma concepts_loop_first_fault:
  "concepts_loop fl api cs cc acc =
     (case first_fault (fetched api cs cc) of
        Some e \<Rightarrow> Inl e
      | None \<Rightarrow> Inr (acc @ map (derived fl) (fetched api cs cc)))"
proof (induction cs arbitrary: acc)
  case Nil
  then show ?case by (simp add: fetched_def)
next
  case (Cons c cs)
  have f: "fetched api (c # cs) cc = api (authors_url c cc) @ fetched api cs cc"
    by (simp add: fetched_def)
  show ?case
  proof (cases "first_fault (api (authors_url c cc))")
    case None
    then show ?thesis
      by (simp add: f first_fault_append authors_loop_first_fault Cons.IH split: option.splits)
  next
    case (Some e)
    then show ?thesis
      by (simp add: f first_fault_append authors_loop_first_fault)
  qed
qed

lemma get_authors_first_fault:
  "get_authors fl api cs cc =
     (case first_fault (fetched api cs cc) of
        Some e \<Rightarrow> Inl e
      | None \<Rightarrow> Inr (sort_key rank_key (map (derived fl) (fetched api cs cc))))"
  by (simp add: get_authors_def concepts_loop_first_fault split: option.splits)

lemma get_authors_ok:
  "\<forall>a\<in>set (fetched api cs cc). api_works_count a \<noteq> 0 \<and>
      in_double_range (api_cited_by_count a) (api_works_count a) \<Longrightarrow>
     get_authors fl api cs cc = Inr (sort_key rank_key (map (derived fl) (fetched api cs cc)))"
  using first_fault_None [of "fetched api cs cc"] by (simp add: get_authors_first_fault)

lemma get_authors_fault:
  "\<exists>a\<in>set (fetched api cs cc). api_works_count a = 0 \<or>
      \<not> in_double_range (api_cited_by_count a) (api_works_count a) \<Longrightarrow>
     \<exists>e. get_authors fl api cs cc = Inl e"
  using first_fault_None [of "fetched api cs cc"]
  by (cases "first_fault (fetched api cs cc)") (auto simp: get_authors_first_fault)

lemma get_authors_zero:
  "\<exists>a\<in>set (fetched api cs cc). api_works_count a = 0 \<Longrightarrow>
   \<forall>a\<in>set (fetched api cs cc). api_works_count a \<noteq> 0 \<longrightarrow>
      in_double_range (api_cited_by_count a) (api_works_count a) \<Longrightarrow>
     get_authors fl api cs cc = Inl ZeroDivisionError"
  by (simp add: get_authors_first_fault first_fault_zero)

lemma get_authors_Inr:
  assumes "get_authors fl api cs cc = Inr out"
  shows "(\<forall>a\<in>set (fetched api cs cc). api_works_count a \<noteq> 0 \<and>
            in_double_range (api_cited_by_count a) (api_works_count a)) \<and>
         out = sort_key rank_key (map (derived fl) (fetched api cs cc))"
proof (cases "first_fault (fetched api cs cc)")
  case None
  with assms first_fault_None [of "fetched api cs cc"] show ?thesis
    by (simp add: get_authors_first_fault)
next
  case (Some e)
  with assms show ?thesis by (simp add: get_authors_first_fault)
qed

lemma get_authors_Inl:
  assumes "get_authors fl api cs cc = Inl e"
  shows "\<exists>a\<in>set (fetched api cs cc). api_works_count a = 0 \<or>
      \<not> in_double_range (api_cited_by_count a) (api_works_count a)"
proof (rule ccontr)
  assume "\<not> ?thesis"
  then have "\<forall>a\<in>set (fetched api cs cc). api_works_count a \<noteq> 0 \<and>
      in_double_range (api_cited_by_count a) (api_works_count a)" by simp
  from get_authors_ok [OF this, of fl] assms show False by simp
qed

lemma rank_key_le:
  "rank_key a \<le> rank_key b \<longleftrightarrow>
     two_year_mean_citedness b < two_year_mean_citedness a \<or>
     (two_year_mean_citedness a = two_year_mean_citedness b \<and> cited_by_count b \<le> cited_by_count a)"
  by (auto simp: rank_key_def)

lemma sorted_rank_key_sort: "sorted_wrt (\<lambda>a b. rank_key a \<le> rank_key b) (sort_key rank_key xs)"
  using sorted_sort_key [of rank_key xs] by (simp add: sorted_map)

subsection \<open>Runs on the sample inputs\<close>

lemmas sample_simps =
  get_authors_def sample_authors_api_def sample_concept_def authors_url_def authors_filter_def
  build_author_def truediv_def in_double_range_def float_overflow_def rank_key_def
  bob_def cy_def ada_def dan_def

lemma sample_run2:
  "get_authors (\<lambda>x. x) sample_authors_api [sample_concept ''C1'', sample_concept ''C2'']
     (Some ''DE'') = Inr [bob, cy, ada]"
  by (simp add: sample_simps)

lemma sample_run4:
  "get_authors (\<lambda>x. x) sample_authors_api
     [sample_concept ''C1'', sample_concept ''C2'', sample_concept ''C3'', sample_concept ''C4'']
     (Some ''DE'') = Inr [bob, cy, ada, dan, dan]"
  by (simp add: sample_simps)

lemma sample_fetched2:
  "map api_works_count
     (fetched sample_authors_api [sample_concept ''C1'', sample_concept ''C2''] (Some ''DE''))
   = [30, 8, 5]"
  by (simp add: fetched_def sample_authors_api_def sample_concept_def authors_url_def
      authors_filter_def)

lemma sample_fetched_zero:
  "map api_works_count (fetched sample_zero_api [sample_concept ''C1''] None) = [2, 0]"
  by (simp add: fetched_def sample_zero_api_def)

subsection \<open>Ranking\<close>

text \<open>
  Claim C1. Whatever the concepts and the country code, the list \<open>get_authors\<close> returns is
  sorted with \<open>2yr_mean_citedness\<close> non-increasing, and two adjacent authors of equal
  \<open>2yr_mean_citedness\<close> come with \<open>cited_by_count\<close> non-increasing.
\<close>

theorem get_authors_sorted:
  assumes "get_authors fl api cs cc = Inr out"
  shows "sorted_wrt (\<lambda>a b. two_year_mean_citedness a \<ge> two_year_mean_citedness b) out
       \<and> (\<forall>i. Suc i < length out \<longrightarrow>
              two_year_mean_citedness (out ! i) = two_year_mean_citedness (out ! Suc i) \<longrightarrow>
              cited_by_count (out ! i) \<ge> cited_by_count (out ! Suc i))"
proof -
  from get_authors_Inr [OF assms]
  have out: "out = sort_key rank_key (map (derived fl) (fetched api cs cc))"
    by simp
  have s: "sorted_wrt (\<lambda>a b. rank_key a \<le> rank_key b) out"
    unfolding out by (rule sorted_rank_key_sort)
  have "sorted_wrt (\<lambda>a b. two_year_mean_citedness a \<ge> two_year_mean_citedness b) out"
    by (rule sorted_wrt_mono_rel [OF _ s]) (auto simp: rank_key_le)
  moreover have "cited_by_count (out ! i) \<ge> cited_by_count (out ! Suc i)"
    if "Suc i < length out"
      and "two_year_mean_citedness (out ! i) = two_year_mean_citedness (out ! Suc i)" for i
  proof -
    from s that(1) have "rank_key (out ! i) \<le> rank_key (out ! Suc i)"
      using sorted_wrt_nth_less [of _ out i "Suc i"] by simp
    with that(2) show ?thesis by (simp add: rank_key_le)
  qed
  ultimately show ?thesis by blast
qed

theorem get_authors_sorted_witness:
  "get_authors (\<lambda>x. x) sample_authors_api [sample_concept ''C1'', sample_concept ''C2'']
     (Some ''DE'') = Inr [bob, cy, ada]
   \<and> sorted_wrt (\<lambda>a b. two_year_mean_citedness a \<ge> two_year_mean_citedness b) [bob, cy, ada]
   \<and> two_year_mean_citedness ([bob, cy, ada] ! 1) = two_year_mean_citedness ([bob, cy, ada] ! Suc 1)
   \<and> cited_by_count ([bob, cy, ada] ! 1) \<ge> cited_by_count ([bob, cy, ada] ! Suc 1)"
  using get_authors_sorted [OF sample_run2] sample_run2
  by (simp add: bob_def cy_def ada_def)

subsection \<open>Derived fields\<close>

text \<open>
  Claim C2. In every record of a list that \<open>get_authors\<close> returns, \<open>works_count\<close> is not
  zero and \<open>citing_score\<close> is exactly what \<open>cited_by_count / works_count\<close> evaluates to on the
  fields of that record. The list is returned when no fetched author has \<open>works_count\<close>
  zero and every quotient is within the range of a double.
\<close>

theorem citing_score_exact:
  "(get_authors fl api cs cc = Inr out \<longrightarrow>
      (\<forall>r\<in>set out. works_count r \<noteq> 0 \<and>
          truediv fl (cited_by_count r) (works_count r) = Inr (citing_score r) \<and>
          citing_score r = fl (of_int (cited_by_count r) / of_int (works_count r))))
   \<and> ((\<forall>a\<in>set (fetched api cs cc). api_works_count a \<noteq> 0 \<and>
          in_double_range (api_cited_by_count a) (api_works_count a)) \<longrightarrow>
       (\<exists>out. get_authors fl api cs cc = Inr out))"
proof -
  have a: "works_count r \<noteq> 0 \<and>
          truediv fl (cited_by_count r) (works_count r) = Inr (citing_score r) \<and>
          citing_score r = fl (of_int (cited_by_count r) / of_int (works_count r))"
    if ret: "get_authors fl api cs cc = Inr out" and r: "r \<in> set out" for r
  proof -
    from get_authors_Inr [OF ret]
    have ok: "\<forall>a\<in>set (fetched api cs cc). api_works_count a \<noteq> 0 \<and>
          in_double_range (api_cited_by_count a) (api_works_count a)"
      and out: "set out = derived fl ` set (fetched api cs cc)" by simp_all
    from r out obtain a where a: "a \<in> set (fetched api cs cc)" and d: "r = derived fl a"
      by auto
    from a ok have "api_works_count a \<noteq> 0"
      "in_double_range (api_cited_by_count a) (api_works_count a)" by simp_all
    then show ?thesis by (simp add: d derived_def truediv_def)
  qed
  have b: "\<exists>out. get_authors fl api cs cc = Inr out"
    if "\<forall>a\<in>set (fetched api cs cc). api_works_count a \<noteq> 0 \<and>
          in_double_range (api_cited_by_count a) (api_works_count a)"
    using get_authors_ok [OF that] by blast
  from a b show ?thesis by blast
qed

theorem citing_score_exact_witness:
  "map api_works_count
     (fetched sample_authors_api [sample_concept ''C1'', sample_concept ''C2''] (Some ''DE''))
     = [30, 8, 5]
   \<and> get_authors (\<lambda>x. x) sample_authors_api [sample_concept ''C1'', sample_concept ''C2'']
       (Some ''DE'') = Inr [bob, cy, ada]
   \<and> works_count cy \<noteq> 0
   \<and> truediv (\<lambda>x. x) (cited_by_count cy) (works_count cy) = Inr (citing_score cy)"
proof -
  from citing_score_exact [of "\<lambda>x. x" sample_authors_api
      "[sample_concept ''C1'', sample_concept ''C2'']" "Some ''DE''" "[bob, cy, ada]"]
    sample_run2
  have "works_count cy \<noteq> 0 \<and>
      truediv (\<lambda>x. x) (cited_by_count cy) (works_count cy) = Inr (citing_score cy)"
    by simp
  with sample_run2 sample_fetched2 show ?thesis by simp
qed

text \<open>
  Claim C8. Every record built by \<open>get_authors\<close> comes from a fetched author object, and its
  \<open>association\<close> is the \<open>display_name\<close> of that object's \<open>last_known_institution\<close> when
  the key is present and not null, and \<open>No institution\<close> otherwise; every fetched author
  object has its record in the output.
\<close>

theorem association_field:
  assumes "get_authors fl api cs cc = Inr out"
  shows "(\<forall>r\<in>set out. \<exists>a\<in>set (fetched api cs cc). build_author fl a = Inr r \<and>
            association r =
              (case api_last_known_institution a of
                 Value lki \<Rightarrow> inst_display_name lki
               | Null \<Rightarrow> ''No institution''
               | Absent \<Rightarrow> ''No institution''))
       \<and> (\<forall>a\<in>set (fetched api cs cc). \<exists>r\<in>set out. build_author fl a = Inr r)"
proof -
  from get_authors_Inr [OF assms]
  have nz: "\<forall>a\<in>set (fetched api cs cc). api_works_count a \<noteq> 0 \<and>
          in_double_range (api_cited_by_count a) (api_works_count a)"
    and out: "set out = derived fl ` set (fetched api cs cc)"
    by simp_all
  have assoc: "association (derived fl a) =
              (case api_last_known_institution a of
                 Value lki \<Rightarrow> inst_display_name lki
               | Null \<Rightarrow> ''No institution''
               | Absent \<Rightarrow> ''No institution'')" for a
    by (cases "api_last_known_institution a") (simp_all add: derived_def)
  from nz have b: "\<forall>a\<in>set (fetched api cs cc). build_author fl a = Inr (derived fl a)"
    by (simp add: build_author_ok)
  show ?thesis
  proof (intro conjI ballI)
    fix r assume "r \<in> set out"
    with out obtain a where "a \<in> set (fetched api cs cc)" "r = derived fl a" by auto
    with b assoc show "\<exists>a\<in>set (fetched api cs cc). build_author fl a = Inr r \<and>
            association r =
              (case api_last_known_institution a of
                 Value lki \<Rightarrow> inst_display_name lki
               | Null \<Rightarrow> ''No institution''
               | Absent \<Rightarrow> ''No institution'')"
      by blast
  next
    fix a assume "a \<in> set (fetched api cs cc)"
    with b out show "\<exists>r\<in>set out. build_author fl a = Inr r" by auto
  qed
qed

theorem association_field_witness:
  "get_authors (\<lambda>x. x) sample_authors_api [sample_concept ''C1'', sample_concept ''C2'']
     (Some ''DE'') = Inr [bob, cy, ada]
   \<and> association ada = ''TU'' \<and> association bob = ''No institution''
   \<and> association cy = ''No institution''"
  using association_field [OF sample_run2] sample_run2
  by (simp add: bob_def cy_def ada_def)

subsection \<open>No merging of authors\<close>

text \<open>
  Claim C10. The output of \<open>get_authors\<close> is the concatenation, in concept order, of the
  per-concept result lists, each author object mapped to its record, sorted stably by the
  ranking key. Nothing is merged or dropped: the length is the sum of the lengths of the
  result lists, and a record occurs as often as the result lists together hold it.
\<close>

theorem no_deduplication:
  assumes "get_authors fl api cs cc = Inr out"
  shows "out = sort_key rank_key (concat (map (\<lambda>c. map (derived fl) (api (authors_url c cc))) cs))
    \<and> (\<forall>a\<in>set (fetched api cs cc). build_author fl a = Inr (derived fl a))
    \<and> (\<forall>k. filter (\<lambda>r. rank_key r = k) out =
             filter (\<lambda>r. rank_key r = k)
               (concat (map (\<lambda>c. map (derived fl) (api (authors_url c cc))) cs)))
    \<and> length out = sum_list (map (\<lambda>c. length (api (authors_url c cc))) cs)
    \<and> (\<forall>r. count (mset out) r =
             sum_list (map (\<lambda>c. count (mset (map (derived fl) (api (authors_url c cc)))) r) cs))"
proof -
  let ?all = "concat (map (\<lambda>c. map (derived fl) (api (authors_url c cc))) cs)"
  have all: "map (derived fl) (fetched api cs cc) = ?all"
    by (simp add: fetched_def map_concat comp_def)
  from get_authors_Inr [OF assms] have out: "out = sort_key rank_key ?all"
    by (simp add: all)
  from get_authors_Inr [OF assms]
  have b: "\<forall>a\<in>set (fetched api cs cc). build_author fl a = Inr (derived fl a)"
    by (simp add: build_author_ok)
  have st: "\<forall>k. filter (\<lambda>r. rank_key r = k) out = filter (\<lambda>r. rank_key r = k) ?all"
    unfolding out by (simp add: sort_key_stable)
  have len: "length out = sum_list (map (\<lambda>c. length (api (authors_url c cc))) cs)"
    unfolding out by (simp add: length_concat comp_def)
  have cnt: "\<forall>r. count (mset out) r =
      sum_list (map (\<lambda>c. count (mset (map (derived fl) (api (authors_url c cc)))) r) cs)"
    unfolding out by (induction cs) simp_all
  from out b st len cnt show ?thesis by blast
qed

theorem no_deduplication_witness:
  "get_authors (\<lambda>x. x) sample_authors_api
     [sample_concept ''C1'', sample_concept ''C2'', sample_concept ''C3'', sample_concept ''C4'']
     (Some ''DE'') = Inr [bob, cy, ada, dan, dan]
   \<and> length [bob, cy, ada, dan, dan] =
       sum_list (map (\<lambda>c. length (sample_authors_api (authors_url c (Some ''DE''))))
         [sample_concept ''C1'', sample_concept ''C2'', sample_concept ''C3'', sample_concept ''C4''])
   \<and> sample_authors_api (authors_url (sample_concept ''C3'') (Some ''DE''))
       = sample_authors_api (authors_url (sample_concept ''C4'') (Some ''DE''))"
  using no_deduplication [OF sample_run4] sample_run4
  by (simp add: sample_authors_api_def sample_concept_def authors_url_def authors_filter_def)

subsection \<open>Stop-word removal\<close>

lemma words_loop_runs:
  "flush (words_loop sw ws (all_topics, cur)) =
     all_topics @
       (if cur = [] then token_runs (\<lambda>t. lower t \<in> sw) ws
        else (cur @ takeWhile (\<lambda>t. lower t \<notin> sw) ws)
               # token_runs (\<lambda>t. lower t \<in> sw) (dropWhile (\<lambda>t. lower t \<notin> sw) ws))"
proof (induction ws arbitrary: all_topics cur)
  case Nil
  then show ?case by (simp add: flush_def)
next
  case (Cons w ws)
  show ?case
  proof (cases "lower w \<in> sw")
    case True
    then show ?thesis using Cons.IH [of "all_topics @ [cur]" "[]"] Cons.IH [of all_topics "[]"]
      by simp
  next
    case False
    then show ?thesis using Cons.IH [of all_topics "cur @ [w]"]
      by simp
  qed
qed

lemma topics_loop_runs:
  "topics_loop sw wt ps all_topics =
     all_topics @ concat (map (\<lambda>p. token_runs (\<lambda>t. lower t \<in> sw) (wt p)) ps)"
proof (induction ps arbitrary: all_topics)
  case Nil
  then show ?case by simp
next
  case (Cons p ps)
  show ?case
    by (simp add: words_loop_runs Cons.IH)
qed

lemma remove_stop_words_runs:
  "remove_stop_words english wt phrases =
     map (join '' '')
       (concat (map (\<lambda>p. token_runs (\<lambda>t. lower t \<in> stop_words english) (wt p)) phrases))"
  by (simp add: remove_stop_words_def topics_loop_runs)

lemma token_runs_all_stop: "\<forall>t\<in>set ts. stop t \<Longrightarrow> token_runs stop ts = []"
  by (induction ts) simp_all

lemma token_runs_nonempty: "r \<in> set (token_runs stop ts) \<Longrightarrow> r \<noteq> [] \<and> (\<forall>t\<in>set r. \<not> stop t)"
proof (induction stop ts rule: token_runs.induct)
  case (1 stop)
  then show ?case by simp
next
  case (2 stop t ts)
  show ?case
  proof (cases "stop t")
    case True
    with "2.prems" have "r \<in> set (token_runs stop ts)" by simp
    with "2.IH"(1) [OF True] show ?thesis .
  next
    case False
    with "2.prems" consider "r = t # takeWhile (\<lambda>u. \<not> stop u) ts"
      | "r \<in> set (token_runs stop (dropWhile (\<lambda>u. \<not> stop u) ts))" by auto
    then show ?thesis
    proof cases
      case 1
      have "\<forall>u\<in>set (takeWhile (\<lambda>u. \<not> stop u) ts). \<not> stop u"
        by (blast dest: set_takeWhileD)
      with False 1 show ?thesis by simp
    next
      case 2
      with "2.IH"(2) [OF False] show ?thesis .
    qed
  qed
qed

lemma concat_token_runs: "concat (token_runs stop ts) = filter (\<lambda>t. \<not> stop t) ts"
proof (induction stop ts rule: token_runs.induct)
  case (1 stop)
  then show ?case by simp
next
  case (2 stop t ts)
  have "filter (\<lambda>t. \<not> stop t) ts =
      takeWhile (\<lambda>u. \<not> stop u) ts @ filter (\<lambda>t. \<not> stop t) (dropWhile (\<lambda>u. \<not> stop u) ts)"
    by (induction ts) simp_all
  with 2 show ?case by simp
qed

lemma token_runs_maximal:
  "r \<in> set (token_runs stop ts) \<Longrightarrow>
     \<exists>pre post. ts = pre @ r @ post \<and> (pre = [] \<or> stop (last pre)) \<and> (post = [] \<or> stop (hd post))"
proof (induction stop ts arbitrary: r rule: token_runs.induct)
  case (1 stop)
  then show ?case by simp
next
  case (2 stop t ts)
  show ?case
  proof (cases "stop t")
    case True
    from True "2.prems" have "r \<in> set (token_runs stop ts)" by simp
    with "2.IH"(1) [OF True] obtain pre post where "ts = pre @ r @ post"
      "pre = [] \<or> stop (last pre)" "post = [] \<or> stop (hd post)" by blast
    with True have "t # ts = (t # pre) @ r @ post \<and> (t # pre = [] \<or> stop (last (t # pre)))
        \<and> (post = [] \<or> stop (hd post))" by auto
    then show ?thesis by blast
  next
    case False
    let ?tw = "takeWhile (\<lambda>u. \<not> stop u) ts" and ?dw = "dropWhile (\<lambda>u. \<not> stop u) ts"
    from False "2.prems" consider "r = t # ?tw" | "r \<in> set (token_runs stop ?dw)" by auto
    then show ?thesis
    proof cases
      case 1
      have "?dw = [] \<or> stop (hd ?dw)" using hd_dropWhile [of "\<lambda>u. \<not> stop u" ts] by auto
      moreover have "t # ts = [] @ r @ ?dw" by (simp add: 1)
      ultimately show ?thesis by blast
    next
      case 2
      with "2.IH"(2) [OF False] obtain pre post where dw: "?dw = pre @ r @ post"
        and pre: "pre = [] \<or> stop (last pre)" and post: "post = [] \<or> stop (hd post)" by blast
      from 2 have r: "r \<noteq> [] \<and> (\<forall>t\<in>set r. \<not> stop t)" by (rule token_runs_nonempty)
      have "pre \<noteq> []"
      proof
        assume "pre = []"
        with dw r have "?dw \<noteq> [] \<and> \<not> stop (hd ?dw)" by (cases r) auto
        then show False using hd_dropWhile [of "\<lambda>u. \<not> stop u" ts] by auto
      qed
      with pre have "stop (last (t # ?tw @ pre))" by simp
      moreover have "t # ts = (t # ?tw @ pre) @ r @ post"
      proof -
        have "ts = ?tw @ ?dw" by simp
        then have "ts = ?tw @ pre @ r @ post" by (simp only: dw)
        then show ?thesis by simp
      qed
      ultimately show ?thesis using post by blast
    qed
  qed
qed

lemma lower_punct: "lower ''.'' = ''.''" "lower '','' = '',''" "lower '';'' = '';''"
  by (simp_all add: lower_def lower_char_def)

text \<open>
  Claim C6. When every token of every phrase is a stop word or one of the punctuation marks
  \<open>.\<close>, \<open>,\<close>, \<open>;\<close> (the token itself or its lower-case form: the English list is in lower
  case), \<open>remove_stop_words\<close> returns the empty list.
\<close>

theorem stop_words_only:
  assumes "\<forall>w\<in>set english. lower w = w"
    and "\<forall>p\<in>set phrases. \<forall>t\<in>set (word_tokenize p).
           t \<in> stop_words english \<or> lower t \<in> stop_words english"
  shows "remove_stop_words english word_tokenize phrases = []"
proof -
  have low: "lower t \<in> stop_words english" if "t \<in> stop_words english" for t
  proof -
    from that consider "t \<in> set english" | "t = ''.''" | "t = '',''" | "t = '';''"
      by (auto simp: stop_words_def)
    then show ?thesis
    proof cases
      case 1
      with assms(1) show ?thesis by (simp add: stop_words_def)
    qed (simp_all add: lower_punct stop_words_def)
  qed
  have "token_runs (\<lambda>t. lower t \<in> stop_words english) (word_tokenize p) = []"
    if "p \<in> set phrases" for p
    using that assms(2) low by (intro token_runs_all_stop) blast
  then have "concat (map (\<lambda>p. token_runs (\<lambda>t. lower t \<in> stop_words english) (word_tokenize p))
      phrases) = []"
    by simp
  then show ?thesis by (simp add: remove_stop_words_runs)
qed

lemma sample_tokens:
  "map sample_tokenize [''the of . and'', ''In a , ;''] =
     [[''the'', ''of'', ''.'', ''and''], [''In'', ''a'', '','', '';'']]"
  by (simp add: sample_tokenize_def)

lemma sample_english_lower: "map lower sample_english = sample_english"
  by (simp add: sample_english_def lower_def lower_char_def)

theorem stop_words_only_witness:
  "map lower sample_english = sample_english
   \<and> map sample_tokenize [''the of . and'', ''In a , ;''] =
       [[''the'', ''of'', ''.'', ''and''], [''In'', ''a'', '','', '';'']]
   \<and> remove_stop_words sample_english sample_tokenize [''the of . and'', ''In a , ;''] = []"
proof -
  have h1: "\<forall>w\<in>set sample_english. lower w = w"
    by (simp add: sample_english_def lower_def lower_char_def)
  have h2: "\<forall>p\<in>set [''the of . and'', ''In a , ;'']. \<forall>t\<in>set (sample_tokenize p).
           t \<in> stop_words sample_english \<or> lower t \<in> stop_words sample_english"
    by (simp add: sample_tokenize_def sample_english_def stop_words_def lower_def lower_char_def)
  from stop_words_only [OF h1 h2] sample_tokens sample_english_lower show ?thesis by simp
qed

text \<open>
  Claim C7. \<open>remove_stop_words\<close> tokenizes each phrase and emits, space-joined, the runs of
  its tokens: every run is non-empty, holds no stop token, and is maximal (a segment of
  the token list that ends at the list's ends or at stop tokens), and the runs together
  are the tokens that are not stop tokens, in order. On \<open>the quick brown fox\<close> the result
  is \<open>quick brown fox\<close>.
\<close>

theorem maximal_runs:
  "remove_stop_words english word_tokenize phrases =
     map (join '' '')
       (concat (map (\<lambda>p. token_runs (\<lambda>t. lower t \<in> stop_words english) (word_tokenize p))
          phrases))
   \<and> (\<forall>r\<in>set (token_runs stop ts). r \<noteq> [] \<and> (\<forall>t\<in>set r. \<not> stop t) \<and>
         (\<exists>pre post. ts = pre @ r @ post \<and> (pre = [] \<or> stop (last pre)) \<and>
            (post = [] \<or> stop (hd post))))
   \<and> concat (token_runs stop ts) = filter (\<lambda>t. \<not> stop t) ts
   \<and> (word_tokenize ''the quick brown fox'' = [''the'', ''quick'', ''brown'', ''fox''] \<and>
        ''the'' \<in> set english \<and> ''quick'' \<notin> set english \<and> ''brown'' \<notin> set english \<and>
        ''fox'' \<notin> set english \<longrightarrow>
        remove_stop_words english word_tokenize [''the quick brown fox''] = [''quick brown fox''])"
proof -
  have a: "remove_stop_words english word_tokenize phrases =
     map (join '' '')
       (concat (map (\<lambda>p. token_runs (\<lambda>t. lower t \<in> stop_words english) (word_tokenize p))
          phrases))"
    by (rule remove_stop_words_runs)
  have b: "\<forall>r\<in>set (token_runs stop ts). r \<noteq> [] \<and> (\<forall>t\<in>set r. \<not> stop t) \<and>
         (\<exists>pre post. ts = pre @ r @ post \<and> (pre = [] \<or> stop (last pre)) \<and>
            (post = [] \<or> stop (hd post)))"
    using token_runs_nonempty [of _ stop ts] token_runs_maximal [of _ stop ts] by blast
  have c: "concat (token_runs stop ts) = filter (\<lambda>t. \<not> stop t) ts"
    by (rule concat_token_runs)
  have d: "remove_stop_words english word_tokenize [''the quick brown fox''] = [''quick brown fox'']"
    if "word_tokenize ''the quick brown fox'' = [''the'', ''quick'', ''brown'', ''fox''] \<and>
        ''the'' \<in> set english \<and> ''quick'' \<notin> set english \<and> ''brown'' \<notin> set english \<and>
        ''fox'' \<notin> set english"
    using that
    by (simp add: remove_stop_words_def stop_words_def lower_def lower_char_def flush_def)
  from a b c d show ?thesis by blast
qed

theorem maximal_runs_witness:
  "sample_tokenize ''the quick brown fox'' = [''the'', ''quick'', ''brown'', ''fox'']
   \<and> remove_stop_words sample_english sample_tokenize [''the quick brown fox'']
       = [''quick brown fox'']
   \<and> remove_stop_words sample_english sample_tokenize [''Botany and the history of Italy'']
       = [''Botany'', ''history'', ''Italy'']"
  using maximal_runs [of sample_english sample_tokenize "[''Botany and the history of Italy'']"
      "\<lambda>t. False" "[]"]
  by (simp add: sample_tokenize_def sample_english_def stop_words_def lower_def lower_char_def)

subsection \<open>Location codes\<close>

lemma filtered_codes:
  "[alpha_2 (the code). code \<leftarrow> map get countries, code \<noteq> None] =
   map (\<lambda>c. alpha_2 (the (get c))) (filter (\<lambda>c. get c \<noteq> None) countries)"
  by (induction countries) simp_all

lemma resolved_codes:
  "[Some (alpha_2 (the (get c))). c \<leftarrow> countries, get c \<noteq> None] =
   map (\<lambda>c. Some (alpha_2 (the (get c)))) (filter (\<lambda>c. get c \<noteq> None) countries)"
  by (induction countries) simp_all

lemma convert_location_to_alpha2_filter:
  "convert_location_to_alpha2 get countries =
     (if filter (\<lambda>c. get c \<noteq> None) countries = [] then [None]
      else map (\<lambda>c. Some (alpha_2 (the (get c)))) (filter (\<lambda>c. get c \<noteq> None) countries))"
  unfolding convert_location_to_alpha2_def Let_def filtered_codes by simp

text \<open>
  Claim C4. \<open>convert_location_to_alpha2\<close> maps every name the country table resolves to its
  alpha-2 code, in input order, and drops the others; when no name resolves the result
  is \<open>[None]\<close>. With a table that knows Germany as DE and Italy as IT and does not know
  Tomato, \<open>["Germany", "Tomato", "Italy"]\<close> gives \<open>["DE", "IT"]\<close> and \<open>["Tomato"]\<close> gives
  \<open>[None]\<close>.
\<close>

theorem convert_location_to_alpha2_spec:
  "((\<exists>c\<in>set countries. get c \<noteq> None) \<longrightarrow>
      convert_location_to_alpha2 get countries =
        [Some (alpha_2 (the (get c))). c \<leftarrow> countries, get c \<noteq> None])
   \<and> ((\<forall>c\<in>set countries. get c = None) \<longrightarrow>
      convert_location_to_alpha2 get countries = [None])
   \<and> (get ''Germany'' = Some de \<and> alpha_2 de = ''DE'' \<and> get ''Tomato'' = None \<and>
       get ''Italy'' = Some it \<and> alpha_2 it = ''IT'' \<longrightarrow>
      convert_location_to_alpha2 get [''Germany'', ''Tomato'', ''Italy''] = [Some ''DE'', Some ''IT''])
   \<and> (get ''Tomato'' = None \<longrightarrow> convert_location_to_alpha2 get [''Tomato''] = [None])"
proof -
  have a: "convert_location_to_alpha2 get countries =
        [Some (alpha_2 (the (get c))). c \<leftarrow> countries, get c \<noteq> None]"
    if "\<exists>c\<in>set countries. get c \<noteq> None"
  proof -
    from that have "filter (\<lambda>c. get c \<noteq> None) countries \<noteq> []"
      by (simp add: filter_empty_conv)
    then show ?thesis
      unfolding resolved_codes by (simp add: convert_location_to_alpha2_filter)
  qed
  have b: "convert_location_to_alpha2 get countries = [None]"
    if "\<forall>c\<in>set countries. get c = None"
  proof -
    from that have "filter (\<lambda>c. get c \<noteq> None) countries = []"
      by (simp add: filter_empty_conv)
    then show ?thesis by (simp add: convert_location_to_alpha2_filter)
  qed
  have c: "convert_location_to_alpha2 get [''Germany'', ''Tomato'', ''Italy''] = [Some ''DE'', Some ''IT'']"
    if "get ''Germany'' = Some de \<and> alpha_2 de = ''DE'' \<and> get ''Tomato'' = None \<and>
       get ''Italy'' = Some it \<and> alpha_2 it = ''IT''"
    using that by (simp add: convert_location_to_alpha2_filter)
  have d: "convert_location_to_alpha2 get [''Tomato''] = [None]" if "get ''Tomato'' = None"
    using that by (simp add: convert_location_to_alpha2_filter)
  from a b c d show ?thesis by blast
qed

theorem convert_location_to_alpha2_spec_witness:
  "convert_location_to_alpha2 sample_countries_get [''Germany'', ''Tomato'', ''Italy'']
     = [Some ''DE'', Some ''IT'']
   \<and> convert_location_to_alpha2 sample_countries_get [''Tomato''] = [None]
   \<and> convert_location_to_alpha2 sample_countries_get [''Tomato'', ''France'', ''Potato'']
     = [Some ''FR'']
   \<and> convert_location_to_alpha2 sample_countries_get [] = [None]"
  using convert_location_to_alpha2_spec [of "[''Germany'', ''Tomato'', ''Italy'']" sample_countries_get
      "\<lparr> alpha_2 = ''DE'', country_name = ''Germany'' \<rparr>"
      "\<lparr> alpha_2 = ''IT'', country_name = ''Italy'' \<rparr>"]
  by (simp add: sample_countries_get_def convert_location_to_alpha2_filter)

subsection \<open>Confidence threshold\<close>

lemma confident_infos_map:
  "confident_infos (map f cs) = [ans_answer (f c). c \<leftarrow> cs, ans_score (f c) > 0.15]"
  unfolding confident_infos_def by (induction cs) simp_all

lemma confident_infos_filter:
  "confident_infos answers = map ans_answer (filter (\<lambda>a. ans_score a > 0.15) answers)"
  unfolding confident_infos_def by (induction answers) simp_all

lemma confident_infos_cong:
  "\<forall>c\<in>set cs. (ans_score (f c) \<le> 0.15 \<and> ans_score (g c) \<le> 0.15) \<or>
      (0.15 < ans_score (f c) \<and> 0.15 < ans_score (g c) \<and> ans_answer (f c) = ans_answer (g c))
   \<Longrightarrow> confident_infos (map f cs) = confident_infos (map g cs)"
  by (induction cs) (auto simp: confident_infos_filter)

lemma confident_infos_none:
  "\<forall>c\<in>set cs. ans_score (f c) \<le> 0.15 \<Longrightarrow> confident_infos (map f cs) = []"
  by (induction cs) (auto simp: confident_infos_filter)

lemma remove_stop_words_Nil: "remove_stop_words english wt [] = []"
  by (simp add: remove_stop_words_def)

text \<open>
  Claim C5. \<open>anwser_question\<close> hands to the stop-word removal exactly the texts of the
  answers whose score is above 0.15, in sentence order. An answer with a score of 0.15 or
  less contributes nothing: changing such answers does not change the result, and when
  every score is 0.15 or less the result is empty. Topics and locations are both
  extracted this way.
\<close>

theorem low_scores_discarded:
  "anwser_question qa st english wt context question =
     remove_stop_words english wt
       [ans_answer (qa question c). c \<leftarrow> st context, ans_score (qa question c) > 0.15]
   \<and> ((\<forall>c\<in>set (st context).
          (ans_score (qa question c) \<le> 0.15 \<and> ans_score (qa' question c) \<le> 0.15) \<or>
          (0.15 < ans_score (qa question c) \<and> 0.15 < ans_score (qa' question c) \<and>
           ans_answer (qa question c) = ans_answer (qa' question c))) \<longrightarrow>
        anwser_question qa st english wt context question =
        anwser_question qa' st english wt context question)
   \<and> ((\<forall>c\<in>set (st context). ans_score (qa question c) \<le> 0.15) \<longrightarrow>
        anwser_question qa st english wt context question = [])
   \<and> extract_information qa st english wt context =
        (anwser_question qa st english wt context ''What am I interested in?'',
         anwser_question qa st english wt context ''Which country am I interested in?'')"
proof -
  have a: "anwser_question qa st english wt context question =
     remove_stop_words english wt
       [ans_answer (qa question c). c \<leftarrow> st context, ans_score (qa question c) > 0.15]"
    unfolding anwser_question_def Let_def confident_infos_map ..
  have b: "anwser_question qa st english wt context question =
        anwser_question qa' st english wt context question"
    if "\<forall>c\<in>set (st context).
          (ans_score (qa question c) \<le> 0.15 \<and> ans_score (qa' question c) \<le> 0.15) \<or>
          (0.15 < ans_score (qa question c) \<and> 0.15 < ans_score (qa' question c) \<and>
           ans_answer (qa question c) = ans_answer (qa' question c))"
    unfolding anwser_question_def Let_def
    using confident_infos_cong [OF that] by simp
  have c: "anwser_question qa st english wt context question = []"
    if "\<forall>c\<in>set (st context). ans_score (qa question c) \<le> 0.15"
    unfolding anwser_question_def Let_def
    using confident_infos_none [OF that] by (simp add: remove_stop_words_Nil)
  have d: "extract_information qa st english wt context =
        (anwser_question qa st english wt context ''What am I interested in?'',
         anwser_question qa st english wt context ''Which country am I interested in?'')"
    by (simp add: extract_information_def)
  from a b c d show ?thesis by blast
qed

lemma sample_answer:
  "anwser_question sample_qa_model sample_sent_tokenize sample_english sample_tokenize
     ''I like botany. See the moon'' ''What am I interested in?'' = [''botany'']"
  by (simp add: anwser_question_def confident_infos_def sample_qa_model_def
      sample_sent_tokenize_def remove_stop_words_def stop_words_def sample_english_def
      sample_tokenize_def lower_def lower_char_def flush_def)

theorem low_scores_discarded_witness:
  "anwser_question sample_qa_model sample_sent_tokenize sample_english sample_tokenize
     ''I like botany. See the moon'' ''What am I interested in?'' = [''botany'']
   \<and> anwser_question sample_qa_model' sample_sent_tokenize sample_english sample_tokenize
     ''I like botany. See the moon'' ''What am I interested in?'' = [''botany'']
   \<and> map (\<lambda>c. ans_score (sample_qa_model ''What am I interested in?'' c))
        (sample_sent_tokenize ''I like botany. See the moon'') = [0.9, 0.15]"
proof -
  have h: "\<forall>c\<in>set (sample_sent_tokenize ''I like botany. See the moon'').
          (ans_score (sample_qa_model ''What am I interested in?'' c) \<le> 0.15 \<and>
           ans_score (sample_qa_model' ''What am I interested in?'' c) \<le> 0.15) \<or>
          (0.15 < ans_score (sample_qa_model ''What am I interested in?'' c) \<and>
           0.15 < ans_score (sample_qa_model' ''What am I interested in?'' c) \<and>
           ans_answer (sample_qa_model ''What am I interested in?'' c) =
           ans_answer (sample_qa_model' ''What am I interested in?'' c))"
    by (simp add: sample_sent_tokenize_def sample_qa_model_def sample_qa_model'_def)
  from low_scores_discarded [of sample_qa_model sample_sent_tokenize sample_english
      sample_tokenize "''I like botany. See the moon''" "''What am I interested in?''"
      sample_qa_model'] h sample_answer
  show ?thesis by (simp add: sample_sent_tokenize_def sample_qa_model_def)
qed

subsection \<open>The driver\<close>

lemma codes_loop_Inl:
  "get_authors fl api (take 5 concepts) cc = Inl e \<Longrightarrow>
     codes_loop fl api concepts (cc # rest) = ([Call_get_authors (take 5 concepts) cc], Some e)"
  by simp

lemma codes_loop_Inr:
  "get_authors fl api (take 5 concepts) cc = Inr authors \<Longrightarrow>
     codes_loop fl api concepts (cc # rest) =
       (Call_get_authors (take 5 concepts) cc # Call_print_authors (take 5 authors) cc
          # Print_blank_lines # fst (codes_loop fl api concepts rest),
        snd (codes_loop fl api concepts rest))"
  by (simp add: case_prod_beta)

lemma driver_loop_Cons:
  "driver_loop fl capi api cget (topic # rest) locations =
     (let cl = codes_loop fl api (snd (get_concepts capi topic))
                 (convert_location_to_alpha2 cget locations);
          pre = fst (get_concepts capi topic) @ [Print_results_for topic] @ fst cl
      in if snd cl = None
         then (pre @ fst (driver_loop fl capi api cget rest locations),
               snd (driver_loop fl capi api cget rest locations))
         else (pre, snd cl))"
  by (simp add: case_prod_beta Let_def split: option.splits)

declare codes_loop.simps(2) [simp del] driver_loop.simps(2) [simp del]

lemma codes_loop_fault_last:
  "snd (codes_loop fl api cs codes) = Some e \<Longrightarrow>
     \<exists>evs cc. fst (codes_loop fl api cs codes) = evs @ [Call_get_authors (take 5 cs) cc] \<and>
       cc \<in> set codes \<and> get_authors fl api (take 5 cs) cc = Inl e"
proof (induction codes)
  case Nil
  then show ?case by simp
next
  case (Cons cc rest)
  show ?case
  proof (cases "get_authors fl api (take 5 cs) cc")
    case (Inl e')
    with Cons.prems have "e' = e" by (simp add: codes_loop_Inl)
    with Inl have "fst (codes_loop fl api cs (cc # rest)) = [] @ [Call_get_authors (take 5 cs) cc]
        \<and> cc \<in> set (cc # rest) \<and> get_authors fl api (take 5 cs) cc = Inl e"
      by (simp add: codes_loop_Inl)
    then show ?thesis by blast
  next
    case (Inr authors)
    with Cons.prems have "snd (codes_loop fl api cs rest) = Some e"
      by (simp add: codes_loop_Inr)
    with Cons.IH obtain evs cc' where r: "fst (codes_loop fl api cs rest) =
        evs @ [Call_get_authors (take 5 cs) cc']" "cc' \<in> set rest"
        "get_authors fl api (take 5 cs) cc' = Inl e" by blast
    let ?evs = "Call_get_authors (take 5 cs) cc # Call_print_authors (take 5 authors) cc
          # Print_blank_lines # evs"
    from Inr r have "fst (codes_loop fl api cs (cc # rest)) =
        ?evs @ [Call_get_authors (take 5 cs) cc'] \<and> cc' \<in> set (cc # rest) \<and>
        get_authors fl api (take 5 cs) cc' = Inl e"
      by (simp add: codes_loop_Inr)
    then show ?thesis by blast
  qed
qed

lemma codes_loop_faults:
  "\<exists>cc\<in>set codes. \<exists>e. get_authors fl api (take 5 cs) cc = Inl e \<Longrightarrow>
     \<exists>e'. snd (codes_loop fl api cs codes) = Some e'"
proof (induction codes)
  case Nil
  then show ?case by simp
next
  case (Cons cc rest)
  show ?case
  proof (cases "get_authors fl api (take 5 cs) cc")
    case (Inl e')
    then show ?thesis by (simp add: codes_loop_Inl)
  next
    case (Inr authors)
    with Cons.prems have "\<exists>cc\<in>set rest. \<exists>e. get_authors fl api (take 5 cs) cc = Inl e"
      by auto
    with Cons.IH Inr show ?thesis by (simp add: codes_loop_Inr)
  qed
qed

lemma codes_loop_events:
  "ev \<in> set (fst (codes_loop fl api cs codes)) \<Longrightarrow>
     (\<exists>cc\<in>set codes. ev = Call_get_authors (take 5 cs) cc) \<or>
     (\<exists>cc\<in>set codes. \<exists>all_authors. get_authors fl api (take 5 cs) cc = Inr all_authors \<and>
         ev = Call_print_authors (take 5 all_authors) cc) \<or>
     ev = Print_blank_lines"
proof (induction codes)
  case Nil
  then show ?case by simp
next
  case (Cons cc rest)
  show ?case
  proof (cases "get_authors fl api (take 5 cs) cc")
    case (Inl e')
    with Cons.prems show ?thesis by (simp add: codes_loop_Inl)
  next
    case (Inr authors)
    with Cons.prems consider "ev = Call_get_authors (take 5 cs) cc"
      | "ev = Call_print_authors (take 5 authors) cc" | "ev = Print_blank_lines"
      | "ev \<in> set (fst (codes_loop fl api cs rest))"
      by (auto simp: codes_loop_Inr)
    then show ?thesis
    proof cases
      case 1
      then show ?thesis by simp
    next
      case 2
      with Inr show ?thesis by auto
    next
      case 3
      then show ?thesis by simp
    next
      case 4
      from Cons.IH [OF 4] show ?thesis by auto
    qed
  qed
qed

lemma codes_loop_all_calls:
  "snd (codes_loop fl api cs codes) = None \<Longrightarrow> cc \<in> set codes \<Longrightarrow>
     Call_get_authors (take 5 cs) cc \<in> set (fst (codes_loop fl api cs codes))"
proof (induction codes)
  case Nil
  then show ?case by simp
next
  case (Cons c rest)
  show ?case
  proof (cases "get_authors fl api (take 5 cs) c")
    case (Inl e')
    with Cons.prems show ?thesis by (simp add: codes_loop_Inl)
  next
    case (Inr authors)
    with Cons show ?thesis by (auto simp: codes_loop_Inr)
  qed
qed

lemma fst_get_concepts:
  "fst (get_concepts capi topic) =
     [Print_number_of_concepts (length (snd (get_concepts capi topic)))]"
  by (simp add: get_concepts_def Let_def)

lemma driver_loop_fault_last:
  "snd (driver_loop fl capi api cget topics locations) = Some e \<Longrightarrow>
     \<exists>evs cs cc. fst (driver_loop fl capi api cget topics locations) =
         evs @ [Call_get_authors cs cc] \<and> get_authors fl api cs cc = Inl e"
proof (induction topics)
  case Nil
  then show ?case by simp
next
  case (Cons topic rest)
  let ?cl = "codes_loop fl api (snd (get_concepts capi topic))
                 (convert_location_to_alpha2 cget locations)"
  let ?pre = "fst (get_concepts capi topic) @ [Print_results_for topic]"
  show ?case
  proof (cases "snd ?cl = None")
    case True
    with Cons.prems have "snd (driver_loop fl capi api cget rest locations) = Some e"
      by (simp add: driver_loop_Cons Let_def)
    with Cons.IH obtain evs cs cc where
      r: "fst (driver_loop fl capi api cget rest locations) = evs @ [Call_get_authors cs cc]"
        "get_authors fl api cs cc = Inl e" by blast
    from True r have "fst (driver_loop fl capi api cget (topic # rest) locations) =
        (?pre @ fst ?cl @ evs) @ [Call_get_authors cs cc]"
      by (simp add: driver_loop_Cons Let_def)
    with r(2) show ?thesis by blast
  next
    case False
    with Cons.prems have f: "snd ?cl = Some e"
      by (simp add: driver_loop_Cons Let_def)
    from codes_loop_fault_last [OF f] obtain evs cc where
      r: "fst ?cl = evs @ [Call_get_authors (take 5 (snd (get_concepts capi topic))) cc]"
        "get_authors fl api (take 5 (snd (get_concepts capi topic))) cc = Inl e" by blast
    from f r have "fst (driver_loop fl capi api cget (topic # rest) locations) =
        (?pre @ evs) @ [Call_get_authors (take 5 (snd (get_concepts capi topic))) cc]"
      by (simp add: driver_loop_Cons Let_def)
    with r(2) show ?thesis by blast
  qed
qed

lemma driver_loop_faults:
  "\<exists>topic\<in>set topics. \<exists>cc\<in>set (convert_location_to_alpha2 cget locations).
      \<exists>e. get_authors fl api (take 5 (snd (get_concepts capi topic))) cc = Inl e \<Longrightarrow>
   \<exists>e'. snd (driver_loop fl capi api cget topics locations) = Some e'"
proof (induction topics)
  case Nil
  then show ?case by simp
next
  case (Cons topic rest)
  let ?cl = "codes_loop fl api (snd (get_concepts capi topic))
                 (convert_location_to_alpha2 cget locations)"
  show ?case
  proof (cases "snd ?cl")
    case None
    have "\<not> (\<exists>cc\<in>set (convert_location_to_alpha2 cget locations).
      \<exists>e. get_authors fl api (take 5 (snd (get_concepts capi topic))) cc = Inl e)"
      using codes_loop_faults [of "convert_location_to_alpha2 cget locations" fl api
          "snd (get_concepts capi topic)"] None by auto
    with Cons.prems have "\<exists>topic\<in>set rest. \<exists>cc\<in>set (convert_location_to_alpha2 cget locations).
      \<exists>e. get_authors fl api (take 5 (snd (get_concepts capi topic))) cc = Inl e" by auto
    with Cons.IH None show ?thesis by (simp add: driver_loop_Cons Let_def)
  next
    case (Some e')
    then show ?thesis by (simp add: driver_loop_Cons Let_def)
  qed
qed

lemma driver_loop_events:
  "ev \<in> set (fst (driver_loop fl capi api cget topics locations)) \<Longrightarrow>
     (\<exists>topic\<in>set topics. ev \<in> set (fst (get_concepts capi topic)) \<or>
        ev = Print_results_for topic \<or>
        ev \<in> set (fst (codes_loop fl api (snd (get_concepts capi topic))
                 (convert_location_to_alpha2 cget locations))))"
proof (induction topics)
  case Nil
  then show ?case by simp
next
  case (Cons topic rest)
  let ?cl = "codes_loop fl api (snd (get_concepts capi topic))
                 (convert_location_to_alpha2 cget locations)"
  from Cons.prems consider "ev \<in> set (fst (get_concepts capi topic))"
    | "ev = Print_results_for topic" | "ev \<in> set (fst ?cl)"
    | "ev \<in> set (fst (driver_loop fl capi api cget rest locations))"
    by (auto simp: driver_loop_Cons Let_def split: if_splits)
  then show ?case
  proof cases
    case 4
    from Cons.IH [OF 4] show ?thesis by auto
  qed auto
qed

lemma driver_loop_get_authors:
  assumes "Call_get_authors cs cc \<in> set (fst (driver_loop fl capi api cget topics locations))"
  shows "\<exists>topic\<in>set topics. cs = take 5 (snd (get_concepts capi topic)) \<and>
           cc \<in> set (convert_location_to_alpha2 cget locations)"
proof -
  from driver_loop_events [OF assms] obtain topic where t: "topic \<in> set topics"
    and "Call_get_authors cs cc \<in> set (fst (get_concepts capi topic)) \<or>
        Call_get_authors cs cc = Print_results_for topic \<or>
        Call_get_authors cs cc \<in> set (fst (codes_loop fl api (snd (get_concepts capi topic))
                 (convert_location_to_alpha2 cget locations)))" by blast
  then have "Call_get_authors cs cc \<in> set (fst (codes_loop fl api (snd (get_concepts capi topic))
                 (convert_location_to_alpha2 cget locations)))"
    by (simp add: fst_get_concepts)
  from codes_loop_events [OF this] t show ?thesis by auto
qed

lemma driver_loop_print_authors:
  assumes "Call_print_authors authors cc \<in> set (fst (driver_loop fl capi api cget topics locations))"
  shows "\<exists>topic\<in>set topics. \<exists>all_authors.
           get_authors fl api (take 5 (snd (get_concepts capi topic))) cc = Inr all_authors \<and>
           authors = take 5 all_authors \<and> cc \<in> set (convert_location_to_alpha2 cget locations)"
proof -
  from driver_loop_events [OF assms] obtain topic where t: "topic \<in> set topics"
    and "Call_print_authors authors cc \<in> set (fst (get_concepts capi topic)) \<or>
        Call_print_authors authors cc = Print_results_for topic \<or>
        Call_print_authors authors cc \<in> set (fst (codes_loop fl api (snd (get_concepts capi topic))
                 (convert_location_to_alpha2 cget locations)))" by blast
  then have "Call_print_authors authors cc \<in> set (fst (codes_loop fl api (snd (get_concepts capi topic))
                 (convert_location_to_alpha2 cget locations)))"
    by (simp add: fst_get_concepts)
  from codes_loop_events [OF this] t show ?thesis by auto
qed

lemma driver_loop_all_calls:
  "snd (driver_loop fl capi api cget topics locations) = None \<Longrightarrow> topic \<in> set topics \<Longrightarrow>
   cc \<in> set (convert_location_to_alpha2 cget locations) \<Longrightarrow>
     Call_get_authors (take 5 (snd (get_concepts capi topic))) cc
       \<in> set (fst (driver_loop fl capi api cget topics locations))"
proof (induction topics)
  case Nil
  then show ?case by simp
next
  case (Cons t rest)
  let ?cl = "codes_loop fl api (snd (get_concepts capi t))
                 (convert_location_to_alpha2 cget locations)"
  from Cons.prems(1) have cl: "snd ?cl = None"
    by (cases "snd ?cl") (simp_all add: driver_loop_Cons Let_def)
  with Cons.prems(1) have r: "snd (driver_loop fl capi api cget rest locations) = None"
    by (simp add: driver_loop_Cons Let_def)
  show ?case
  proof (cases "topic = t")
    case True
    from codes_loop_all_calls [OF cl Cons.prems(3)] True cl show ?thesis
      by (simp add: driver_loop_Cons Let_def)
  next
    case False
    with Cons.prems(2) have "topic \<in> set rest" by simp
    from Cons.IH [OF r this Cons.prems(3)] cl show ?thesis
      by (simp add: driver_loop_Cons Let_def)
  qed
qed

lemma fst_driver:
  "fst (driver fl capi api cget topics locations) =
     Print_inferred_topics (join '', '' topics) # Print_inferred_locations (join '', '' locations)
       # (if topics = [] then [Print_no_topics_found]
          else fst (driver_loop fl capi api cget topics locations))"
  by (simp add: driver_def case_prod_beta)

lemma snd_driver:
  "snd (driver fl capi api cget topics locations) =
     (if topics = [] then None else snd (driver_loop fl capi api cget topics locations))"
  by (simp add: driver_def case_prod_beta)

text \<open>
  Claim C9. In a run of the driver, every call of \<open>get_authors\<close> receives the first five
  concepts found for a topic (at most five), with one of the country codes, and every
  call of \<open>print_authors\<close> receives the first five authors of the sorted list that call
  returned (at most five). The limit is the literal 5 of the script: the driver has no
  parameter for it. A run without fault makes the call for every topic and country code.
\<close>

theorem driver_truncation:
  "(Call_get_authors cs cc \<in> set (fst (driver fl capi api cget topics locations)) \<longrightarrow>
      length cs \<le> 5 \<and>
      (\<exists>topic\<in>set topics. cs = take 5 (snd (get_concepts capi topic))) \<and>
      cc \<in> set (convert_location_to_alpha2 cget locations))
   \<and> (Call_print_authors authors cc \<in> set (fst (driver fl capi api cget topics locations)) \<longrightarrow>
      length authors \<le> 5 \<and>
      (\<exists>topic\<in>set topics. \<exists>all_authors.
          get_authors fl api (take 5 (snd (get_concepts capi topic))) cc = Inr all_authors \<and>
          authors = take 5 all_authors))
   \<and> (snd (driver fl capi api cget topics locations) = None \<longrightarrow>
      (\<forall>topic\<in>set topics. \<forall>code\<in>set (convert_location_to_alpha2 cget locations).
          Call_get_authors (take 5 (snd (get_concepts capi topic))) code
            \<in> set (fst (driver fl capi api cget topics locations))))"
proof -
  have a: "length cs \<le> 5 \<and>
      (\<exists>topic\<in>set topics. cs = take 5 (snd (get_concepts capi topic))) \<and>
      cc \<in> set (convert_location_to_alpha2 cget locations)"
    if "Call_get_authors cs cc \<in> set (fst (driver fl capi api cget topics locations))"
  proof -
    from that have "Call_get_authors cs cc \<in> set (fst (driver_loop fl capi api cget topics locations))"
      by (simp add: fst_driver split: if_splits)
    from driver_loop_get_authors [OF this] show ?thesis by auto
  qed
  have b: "length authors \<le> 5 \<and>
      (\<exists>topic\<in>set topics. \<exists>all_authors.
          get_authors fl api (take 5 (snd (get_concepts capi topic))) cc = Inr all_authors \<and>
          authors = take 5 all_authors)"
    if "Call_print_authors authors cc \<in> set (fst (driver fl capi api cget topics locations))"
  proof -
    from that have "Call_print_authors authors cc
        \<in> set (fst (driver_loop fl capi api cget topics locations))"
      by (simp add: fst_driver split: if_splits)
    from driver_loop_print_authors [OF this] show ?thesis by auto
  qed
  have c: "Call_get_authors (take 5 (snd (get_concepts capi topic))) code
            \<in> set (fst (driver fl capi api cget topics locations))"
    if "snd (driver fl capi api cget topics locations) = None" "topic \<in> set topics"
      "code \<in> set (convert_location_to_alpha2 cget locations)" for topic code
  proof -
    from that(2) have ne: "topics \<noteq> []" by auto
    with that(1) have "snd (driver_loop fl capi api cget topics locations) = None"
      by (simp add: snd_driver)
    from driver_loop_all_calls [OF this that(2,3)] ne show ?thesis
      by (simp add: fst_driver)
  qed
  from a b c show ?thesis by blast
qed


lemma sample_run5:
  "get_authors (\<lambda>x. x) sample_authors_api
     (map sample_concept [''C1'', ''C2'', ''C3'', ''C4'', ''C5''])
     (Some ''DE'') = Inr [bob, cy, ada, dan, dan, dan]"
  by (simp add: sample_simps)

lemma sample_get_concepts:
  "get_concepts sample_concepts_api topic =
     ([Print_number_of_concepts 6],
      map sample_concept [''C1'', ''C2'', ''C3'', ''C4'', ''C5'', ''C6''])"
  by (simp add: get_concepts_def sample_concepts_api_def sample_concept_def concept.defs)

lemma sample_codes:
  "convert_location_to_alpha2 sample_countries_get [''Germany''] = [Some ''DE'']"
  by (simp add: sample_countries_get_def convert_location_to_alpha2_filter)

lemma sample_driver_run:
  "driver (\<lambda>x. x) sample_concepts_api sample_authors_api sample_countries_get
     [''botany''] [''Germany'']
   = ([Print_inferred_topics ''botany'', Print_inferred_locations ''Germany'',
       Print_number_of_concepts 6, Print_results_for ''botany'',
       Call_get_authors (map sample_concept [''C1'', ''C2'', ''C3'', ''C4'', ''C5'']) (Some ''DE''),
       Call_print_authors [bob, cy, ada, dan, dan] (Some ''DE''),
       Print_blank_lines], None)"
  using sample_run5
  by (simp add: driver_def driver_loop_Cons sample_get_concepts sample_codes codes_loop_Inr)

theorem driver_truncation_witness:
  "driver (\<lambda>x. x) sample_concepts_api sample_authors_api sample_countries_get
     [''botany''] [''Germany'']
   = ([Print_inferred_topics ''botany'', Print_inferred_locations ''Germany'',
       Print_number_of_concepts 6, Print_results_for ''botany'',
       Call_get_authors (map sample_concept [''C1'', ''C2'', ''C3'', ''C4'', ''C5'']) (Some ''DE''),
       Call_print_authors [bob, cy, ada, dan, dan] (Some ''DE''),
       Print_blank_lines], None)
   \<and> length (snd (get_concepts sample_concepts_api ''botany'')) = 6
   \<and> get_authors (\<lambda>x. x) sample_authors_api
        (take 5 (snd (get_concepts sample_concepts_api ''botany''))) (Some ''DE'')
       = Inr [bob, cy, ada, dan, dan, dan]
   \<and> length (map sample_concept [''C1'', ''C2'', ''C3'', ''C4'', ''C5'']) \<le> 5
   \<and> length [bob, cy, ada, dan, dan] \<le> 5"
  using driver_truncation [of "map sample_concept [''C1'', ''C2'', ''C3'', ''C4'', ''C5'']"
      "Some ''DE''" "\<lambda>x. x" sample_concepts_api sample_authors_api sample_countries_get
      "[''botany'']" "[''Germany'']" "[bob, cy, ada, dan, dan]"]
    sample_driver_run sample_run5
  by (simp add: sample_get_concepts)

lemma sample_zero_run:
  "get_authors (\<lambda>x. x) sample_zero_api [sample_concept ''C1''] None = Inl ZeroDivisionError"
  by (simp add: get_authors_def sample_zero_api_def build_author_def truediv_def
      in_double_range_def float_overflow_def)

lemma sample_zero_run5:
  "get_authors (\<lambda>x. x) sample_zero_api
     (map sample_concept [''C1'', ''C2'', ''C3'', ''C4'', ''C5'']) (Some ''DE'')
   = Inl ZeroDivisionError"
  by (simp add: get_authors_def sample_zero_api_def build_author_def truediv_def
      in_double_range_def float_overflow_def)

lemma sample_zero_driver_run:
  "driver (\<lambda>x. x) sample_concepts_api sample_zero_api sample_countries_get
     [''botany'', ''zoology''] [''Germany'']
   = ([Print_inferred_topics ''botany, zoology'', Print_inferred_locations ''Germany'',
       Print_number_of_concepts 6, Print_results_for ''botany'',
       Call_get_authors (map sample_concept [''C1'', ''C2'', ''C3'', ''C4'', ''C5'']) (Some ''DE'')],
      Some ZeroDivisionError)"
  using sample_zero_run5
  by (simp add: driver_def driver_loop_Cons sample_get_concepts sample_codes codes_loop_Inl)

text \<open>
  Claim C3, as the code has it. The division of \<open>get_authors\<close> is not guarded. When a
  fetched author object has \<open>works_count\<close> zero the call faults: with ZeroDivisionError when
  every other quotient is within the range of a double. The call returns when no fetched
  author object has \<open>works_count\<close> zero and every quotient is within the range of a
  double; a nonzero \<open>works_count\<close> alone is not enough, as the division then raises
  OverflowError on a quotient beyond that range. The driver does not catch the fault: a
  faulting call among the calls of a run ends the run with a fault, and a run that
  ends with a fault ends at a call of \<open>get_authors\<close> that fetched an author object on
  which the division faults.
\<close>

theorem division_fault:
  "((\<exists>a\<in>set (fetched api cs cc). api_works_count a = 0) \<longrightarrow>
      (\<exists>e. get_authors fl api cs cc = Inl e))
   \<and> ((\<exists>a\<in>set (fetched api cs cc). api_works_count a = 0) \<and>
       (\<forall>a\<in>set (fetched api cs cc). api_works_count a \<noteq> 0 \<longrightarrow>
          in_double_range (api_cited_by_count a) (api_works_count a)) \<longrightarrow>
      get_authors fl api cs cc = Inl ZeroDivisionError)
   \<and> ((\<forall>a\<in>set (fetched api cs cc). api_works_count a \<noteq> 0 \<and>
          in_double_range (api_cited_by_count a) (api_works_count a)) \<longrightarrow>
      (\<exists>out. get_authors fl api cs cc = Inr out))
   \<and> ((\<exists>topic\<in>set topics. \<exists>code\<in>set (convert_location_to_alpha2 cget locations).
         \<exists>a\<in>set (fetched api (take 5 (snd (get_concepts capi topic))) code).
           api_works_count a = 0) \<longrightarrow>
      (\<exists>e. snd (driver fl capi api cget topics locations) = Some e))
   \<and> (snd (driver fl capi api cget topics locations) = Some e \<longrightarrow>
      (\<exists>events cs' cc'. fst (driver fl capi api cget topics locations) =
           events @ [Call_get_authors cs' cc'] \<and>
         get_authors fl api cs' cc' = Inl e \<and>
         (\<exists>a\<in>set (fetched api cs' cc'). api_works_count a = 0 \<or>
            \<not> in_double_range (api_cited_by_count a) (api_works_count a))))"
proof -
  have a: "\<exists>e. get_authors fl api cs cc = Inl e"
    if "\<exists>a\<in>set (fetched api cs cc). api_works_count a = 0"
    using that by (intro get_authors_fault) blast
  have a': "get_authors fl api cs cc = Inl ZeroDivisionError"
    if "(\<exists>a\<in>set (fetched api cs cc). api_works_count a = 0) \<and>
       (\<forall>a\<in>set (fetched api cs cc). api_works_count a \<noteq> 0 \<longrightarrow>
          in_double_range (api_cited_by_count a) (api_works_count a))"
    using that by (simp add: get_authors_zero)
  have b: "\<exists>out. get_authors fl api cs cc = Inr out"
    if "\<forall>a\<in>set (fetched api cs cc). api_works_count a \<noteq> 0 \<and>
          in_double_range (api_cited_by_count a) (api_works_count a)"
    using get_authors_ok [OF that] by blast
  have c: "\<exists>e. snd (driver fl capi api cget topics locations) = Some e"
    if "\<exists>topic\<in>set topics. \<exists>code\<in>set (convert_location_to_alpha2 cget locations).
         \<exists>a\<in>set (fetched api (take 5 (snd (get_concepts capi topic))) code).
           api_works_count a = 0"
  proof -
    from that obtain topic code where t: "topic \<in> set topics"
      and c: "code \<in> set (convert_location_to_alpha2 cget locations)"
      and z: "\<exists>a\<in>set (fetched api (take 5 (snd (get_concepts capi topic))) code).
           api_works_count a = 0" by blast
    from z have "\<exists>e. get_authors fl api (take 5 (snd (get_concepts capi topic))) code = Inl e"
      by (intro get_authors_fault) blast
    with t c have "\<exists>topic\<in>set topics. \<exists>cc\<in>set (convert_location_to_alpha2 cget locations).
      \<exists>e. get_authors fl api (take 5 (snd (get_concepts capi topic))) cc = Inl e"
      by blast
    from driver_loop_faults [OF this] t show ?thesis by (auto simp: snd_driver)
  qed
  have d: "\<exists>events cs' cc'. fst (driver fl capi api cget topics locations) =
           events @ [Call_get_authors cs' cc'] \<and>
         get_authors fl api cs' cc' = Inl e \<and>
         (\<exists>a\<in>set (fetched api cs' cc'). api_works_count a = 0 \<or>
            \<not> in_double_range (api_cited_by_count a) (api_works_count a))"
    if "snd (driver fl capi api cget topics locations) = Some e"
  proof -
    from that have ne: "topics \<noteq> []"
      and "snd (driver_loop fl capi api cget topics locations) = Some e"
      by (simp_all add: snd_driver split: if_splits)
    from driver_loop_fault_last [OF this(2)] obtain evs cs' cc' where
      r: "fst (driver_loop fl capi api cget topics locations) = evs @ [Call_get_authors cs' cc']"
        "get_authors fl api cs' cc' = Inl e" by blast
    from ne r(1) have "fst (driver fl capi api cget topics locations) =
        (Print_inferred_topics (join '', '' topics)
           # Print_inferred_locations (join '', '' locations) # evs) @ [Call_get_authors cs' cc']"
      by (simp add: fst_driver)
    with get_authors_Inl [OF r(2)] r(2) show ?thesis by blast
  qed
  from a a' b c d show ?thesis by blast
qed

theorem division_fault_witness:
  "map api_works_count (fetched sample_zero_api [sample_concept ''C1''] None) = [2, 0]
   \<and> get_authors (\<lambda>x. x) sample_zero_api [sample_concept ''C1''] None = Inl ZeroDivisionError
   \<and> map api_works_count
       (fetched sample_authors_api [sample_concept ''C1'', sample_concept ''C2''] (Some ''DE''))
       = [30, 8, 5]
   \<and> get_authors (\<lambda>x. x) sample_authors_api [sample_concept ''C1'', sample_concept ''C2'']
       (Some ''DE'') = Inr [bob, cy, ada]
   \<and> driver (\<lambda>x. x) sample_concepts_api sample_zero_api sample_countries_get
       [''botany'', ''zoology''] [''Germany'']
     = ([Print_inferred_topics ''botany, zoology'', Print_inferred_locations ''Germany'',
         Print_number_of_concepts 6, Print_results_for ''botany'',
         Call_get_authors (map sample_concept [''C1'', ''C2'', ''C3'', ''C4'', ''C5''])
           (Some ''DE'')],
        Some ZeroDivisionError)"
  using division_fault [of sample_zero_api "[sample_concept ''C1'']" None "\<lambda>x. x"
      "[''botany'', ''zoology'']" sample_countries_get "[''Germany'']" sample_concepts_api
      ZeroDivisionError]
    sample_fetched_zero sample_zero_run sample_fetched2 sample_run2 sample_zero_driver_run
  by simp

text \<open>
  Counterexample to claim C3 as the specification states it: a nonzero \<open>works_count\<close> in
  every fetched author object is not enough for the division not to fault. On an author
  object with \<open>cited_by_count\<close> \<open>10 ^ 400\<close> and \<open>works_count\<close> 1 it raises OverflowError.
\<close>

theorem division_overflow_counterexample:
  "map api_works_count (fetched sample_huge_api [sample_concept ''C1''] None) = [1]
   \<and> get_authors (\<lambda>x. x) sample_huge_api [sample_concept ''C1''] None = Inl OverflowError"
  by (simp add: fetched_def get_authors_def sample_huge_api_def build_author_def truediv_def
      in_double_range_def float_overflow_def)

end
